theory Spec2Isabelle
  imports Main "HOL-Library.Multiset" "HOL-Library.Sublist" "HOL-Library.Char_ord"
    "HOL-Library.List_Lexorder" "HOL-Library.Product_Lexorder"
begin

section \<open>Configuration data (package models)\<close>

text \<open>
  The consortium and stakeholder configuration types, with the fields that the config
  service and its tests use (\<^verbatim>\<open>dummyConsortium\<close>, \<^verbatim>\<open>dummyStakeholder\<close>).
  A Go \<^verbatim>\<open>error\<close> is the string it prints; \<^verbatim>\<open>fmt.Errorf("tag: %w", err)\<close> is the
  tag followed by the wrapped error's string. \<^verbatim>\<open>NumQueries\<close> is a Go \<^verbatim>\<open>int\<close>: the
  service compares it with \<^verbatim>\<open>len(consortium.Members)\<close> and assigns that length to it.
  \<^verbatim>\<open>Config\<close> is a pointer and may be nil. \<^verbatim>\<open>JWS\<close> is the multi-signature envelope
  that the file data carries (\<^verbatim>\<open>jose.JSONWebSignature\<close>); its type is a parameter, and
  the file data of the model always carries one. The settings of a stakeholder
  (\<^verbatim>\<open>StakeholderSettings\<close>, whose fields no source file shows) are left out.
\<close>

type_synonym bytes = string

type_synonym error = string

record PublicKey =
  ID :: string
  JWK :: bytes

record StakeholderListElement =
  Domain :: string
  DID :: string
  PublicKey :: PublicKey

record ConsortiumPolicy =
  NumQueries :: int

record Consortium =
  Domain :: string
  Policy :: ConsortiumPolicy
  Members :: "StakeholderListElement list"
  Previous :: string

record 'jws ConsortiumFileData =
  Config :: "Consortium option"
  JWS :: 'jws

record Stakeholder =
  Domain :: string
  DID :: string
  Endpoints :: "string list"
  Previous :: string

record 'jws StakeholderFileData =
  Config :: "Stakeholder option"
  JWS :: 'jws

text \<open>
  The interface \<^verbatim>\<open>config\<close> that the service wraps: its two operations, as the
  fields of a record of functions (named as in \<^verbatim>\<open>MockConfigService\<close>).
\<close>

record 'jws config =
  GetConsortiumFunc :: "string \<Rightarrow> string \<Rightarrow> error + 'jws ConsortiumFileData"
  GetStakeholderFunc :: "string \<Rightarrow> string \<Rightarrow> error + 'jws StakeholderFileData"

record 'jws ConfigService =
  config :: "'jws config"

section \<open>The signature-verifying config service (package signatureconfig)\<close>

text \<open>
  \<^verbatim>\<open>GetConsortium\<close> fetches the consortium file through the wrapped service and counts
  the members whose key verifies the envelope. The two go-jose primitives are parameters:
  \<^verbatim>\<open>UnmarshalJSON\<close> parses the JWK bytes of a member (\<open>None\<close> when it returns an
  error) and \<^verbatim>\<open>VerifyMulti\<close> tells whether the envelope verifies under a parsed key.
  \<^verbatim>\<open>rand.Perm(len(consortium.Members))\<close> is the argument \<open>perm\<close>: the library returns
  a permutation of \<open>0..<len\<close>, so every index it holds is in range.

  The loop \<^verbatim>\<open>for i := 0; i < len(consortium.Members); i++\<close> is \<open>verifyLoop\<close>, a
  recursion over the indices still to visit, with the two variables the loop updates.
  \<^verbatim>\<open>continue\<close> is the recursive call and \<^verbatim>\<open>break\<close> returns at once. The
  warnings the loop logs are not part of the model.
\<close>

definition memberJWK :: "StakeholderListElement \<Rightarrow> bytes" where
  "memberJWK m = JWK (StakeholderListElement.PublicKey m)"

fun verifyLoop ::
  "(bytes \<Rightarrow> 'key option) \<Rightarrow> ('jws \<Rightarrow> 'key \<Rightarrow> bool) \<Rightarrow> 'jws \<Rightarrow>
   StakeholderListElement list \<Rightarrow> int \<Rightarrow> nat list \<Rightarrow> int \<Rightarrow> string \<Rightarrow> int \<times> string" where
  "verifyLoop UnmarshalJSON VerifyMulti jws members n [] verifiedCount verificationErrors =
     (verifiedCount, verificationErrors)"
| "verifyLoop UnmarshalJSON VerifyMulti jws members n (p # perm) verifiedCount verificationErrors =
     (case UnmarshalJSON (memberJWK (members ! p)) of
        None \<Rightarrow>
          verifyLoop UnmarshalJSON VerifyMulti jws members n perm verifiedCount
            (verificationErrors @ ''bad key for stakeholder: ''
               @ StakeholderListElement.Domain (members ! p) @ '', '')
      | Some key \<Rightarrow>
          if \<not> VerifyMulti jws key then
            verifyLoop UnmarshalJSON VerifyMulti jws members n perm verifiedCount
              (verificationErrors @ ''key fails to verify for stakeholder: ''
                 @ StakeholderListElement.Domain (members ! p) @ '', '')
          else if verifiedCount + 1 = n then (verifiedCount + 1, verificationErrors)
          else verifyLoop UnmarshalJSON VerifyMulti jws members n perm (verifiedCount + 1)
                 verificationErrors)"

definition GetConsortium ::
  "(bytes \<Rightarrow> 'key option) \<Rightarrow> ('jws \<Rightarrow> 'key \<Rightarrow> bool) \<Rightarrow> nat list \<Rightarrow>
   'jws ConfigService \<Rightarrow> string \<Rightarrow> string \<Rightarrow> error + 'jws ConsortiumFileData" where
  "GetConsortium UnmarshalJSON VerifyMulti perm cs url domain =
     (case GetConsortiumFunc (config cs) url domain of
        Inl err \<Rightarrow> Inl (''wrapped config service: '' @ err)
      | Inr consortiumData \<Rightarrow>
          (case ConsortiumFileData.Config consortiumData of
             None \<Rightarrow> Inl ''consortium is nil''
           | Some consortium \<Rightarrow>
               let n0 = NumQueries (Policy consortium);
                   len = int (length (Members consortium));
                   n = (if n0 = 0 \<or> n0 > len then len else n0);
                   (verifiedCount, verificationErrors) =
                     verifyLoop UnmarshalJSON VerifyMulti (ConsortiumFileData.JWS consortiumData)
                       (Members consortium) n perm 0 []
               in if verifiedCount < n then
                    Inl (''insufficient stakeholder endorsement of consortium config file. errors are: [''
                          @ verificationErrors @ '']'')
                  else Inr consortiumData))"

definition GetStakeholder ::
  "'jws ConfigService \<Rightarrow> string \<Rightarrow> string \<Rightarrow> error + 'jws StakeholderFileData" where
  "GetStakeholder cs url domain = GetStakeholderFunc (config cs) url domain"

section \<open>Vocabulary of the properties\<close>

text \<open>
  \<open>keyVerifies\<close>: the member's key parses and verifies the envelope, which is when the
  loop increments \<^verbatim>\<open>verifiedCount\<close>. \<open>failureMsg\<close>: the text the loop appends to
  \<^verbatim>\<open>verificationErrors\<close> for a member it does not count. \<open>validEntries\<close> counts the
  member entries whose key verifies, one per entry; \<open>distinctValidKeys\<close> counts the
  distinct JWK byte strings among them. \<open>effectiveN\<close> is the quorum as the specification
  words it: \<open>numQueries\<close> when \<open>0 < numQueries \<le> len(members)\<close>, and \<open>len(members)\<close>
  otherwise.
\<close>

definition keyVerifies ::
  "(bytes \<Rightarrow> 'key option) \<Rightarrow> ('jws \<Rightarrow> 'key \<Rightarrow> bool) \<Rightarrow> 'jws \<Rightarrow> StakeholderListElement \<Rightarrow> bool" where
  "keyVerifies UnmarshalJSON VerifyMulti jws m =
     (case UnmarshalJSON (memberJWK m) of None \<Rightarrow> False | Some key \<Rightarrow> VerifyMulti jws key)"

definition failureMsg ::
  "(bytes \<Rightarrow> 'key option) \<Rightarrow> StakeholderListElement \<Rightarrow> string" where
  "failureMsg UnmarshalJSON m =
     (case UnmarshalJSON (memberJWK m) of
        None \<Rightarrow> ''bad key for stakeholder: '' @ StakeholderListElement.Domain m @ '', ''
      | Some key \<Rightarrow> ''key fails to verify for stakeholder: '' @ StakeholderListElement.Domain m @ '', '')"

definition validEntries ::
  "(bytes \<Rightarrow> 'key option) \<Rightarrow> ('jws \<Rightarrow> 'key \<Rightarrow> bool) \<Rightarrow> 'jws \<Rightarrow> StakeholderListElement list \<Rightarrow> nat" where
  "validEntries U V jws ms = length (filter (keyVerifies U V jws) ms)"

definition failureList ::
  "(bytes \<Rightarrow> 'key option) \<Rightarrow> ('jws \<Rightarrow> 'key \<Rightarrow> bool) \<Rightarrow> 'jws \<Rightarrow> StakeholderListElement list \<Rightarrow> string" where
  "failureList U V jws ms = concat (map (failureMsg U) (filter (\<lambda>m. \<not> keyVerifies U V jws m) ms))"

definition effectiveN :: "int \<Rightarrow> nat \<Rightarrow> int" where
  "effectiveN numQueries len = (if 0 < numQueries \<and> numQueries \<le> int len then numQueries else int len)"

definition distinctValidKeys ::
  "(bytes \<Rightarrow> 'key option) \<Rightarrow> ('jws \<Rightarrow> 'key \<Rightarrow> bool) \<Rightarrow> 'jws \<Rightarrow> StakeholderListElement list \<Rightarrow> nat" where
  "distinctValidKeys U V jws ms = length (remdups (map memberJWK (filter (keyVerifies U V jws) ms)))"

section \<open>Sample data\<close>

text \<open>
  Stand-ins for the go-jose primitives and for a wrapped service that returns a given
  consortium file, to run the model on concrete consortia: a key is its JWK text, the
  text \<open>''not a key''\<close> does not parse, and an envelope is the list of keys that signed it.
\<close>

definition sampleUnmarshalJSON :: "bytes \<Rightarrow> string option" where
  "sampleUnmarshalJSON b = (if b = ''not a key'' then None else Some b)"

definition sampleVerifyMulti :: "string list \<Rightarrow> string \<Rightarrow> bool" where
  "sampleVerifyMulti jws key = (key \<in> set jws)"

definition sampleMember :: "string \<Rightarrow> bytes \<Rightarrow> StakeholderListElement" where
  "sampleMember d k =
     \<lparr>StakeholderListElement.Domain = d, StakeholderListElement.DID = ''did:example:'' @ d,
      StakeholderListElement.PublicKey = \<lparr>ID = ''did:example:'' @ d @ ''#key-1'', JWK = k\<rparr>\<rparr>"

definition sampleFileData ::
  "int \<Rightarrow> StakeholderListElement list \<Rightarrow> string list \<Rightarrow> (string list) ConsortiumFileData" where
  "sampleFileData q ms jws =
     \<lparr>ConsortiumFileData.Config =
        Some \<lparr>Consortium.Domain = ''consortium.url'', Policy = \<lparr>NumQueries = q\<rparr>, Members = ms,
              Consortium.Previous = ''''\<rparr>,
      ConsortiumFileData.JWS = jws\<rparr>"

definition sampleService ::
  "(string list) ConsortiumFileData \<Rightarrow> (string list) ConfigService" where
  "sampleService cfd =
     \<lparr>config = \<lparr>GetConsortiumFunc = (\<lambda>url domain. Inr cfd),
                 GetStakeholderFunc = (\<lambda>url domain. Inl ''stakeholder error'')\<rparr>\<rparr>"

section \<open>The resolver (specification 4.8)\<close>

text \<open>
  Modelled from the spec: the resolver's \<^verbatim>\<open>Read\<close> (pkg/vdri/trustbloc/vdri.go) is not
  among the source files; only its tests are. The definitions below follow section 4.8 of
  the specification step by step. The resolver's collaborators are fields of the record,
  as the tests replace them: the consortium validator, the endpoint service, the factory
  of per-endpoint resolvers \<^verbatim>\<open>getHTTPVDRI\<close> (it fails on some URLs, and the resolver it
  returns reads a DID) and the document canonicalizer. \<^verbatim>\<open>validatedConsortium\<close> is the
  validated-domain cache, a mapping from domains to booleans. The type of DID documents is
  a parameter.

  \<open>Read\<close> returns its result, the resolver with its cache as the call leaves it, and the
  calls it made to the validator and to the endpoint service, in order.
\<close>

record Endpoint =
  URL :: string

datatype call = ValidateConsortiumCall string | GetEndpointsCall string

record 'doc VDRI =
  resolverURL :: "string option"
  validatedConsortium :: "string \<Rightarrow> bool"
  consortiumValidator :: "string \<Rightarrow> error + unit"
  endpointService :: "string \<Rightarrow> error + Endpoint list"
  getHTTPVDRI :: "string \<Rightarrow> error + (string \<Rightarrow> error + 'doc)"
  docCanonicalizer :: "'doc \<Rightarrow> bytes"

text \<open>
  Modelled from the spec: the shape \<^verbatim>\<open>did:<method>:<domain>:<unique-suffix>\<close> of
  step 2. \<open>splitOn\<close> cuts a string at every separator, as \<^verbatim>\<open>strings.Split\<close> does;
  \<open>parseDID\<close> returns the domain of a DID of four parts that starts with \<^verbatim>\<open>did\<close>.
\<close>

fun splitOn :: "char \<Rightarrow> string \<Rightarrow> string list" where
  "splitOn sep [] = [[]]"
| "splitOn sep (x # xs) =
     (if x = sep then [] # splitOn sep xs
      else (case splitOn sep xs of [] \<Rightarrow> [[x]] | w # ws \<Rightarrow> (x # w) # ws))"

definition parseDID :: "string \<Rightarrow> string option" where
  "parseDID did =
     (case splitOn CHR '':'' did of
        [scheme, method, domain, uniqueSuffix] \<Rightarrow> if scheme = ''did'' then Some domain else None
      | _ \<Rightarrow> None)"

text \<open>
  Modelled from the spec: steps 4 to 7. One endpoint that fails makes the whole read
  fail; the documents that come back are canonicalized, and the first one is returned
  when all canonical forms are equal.
\<close>

definition resolveAt :: "'doc VDRI \<Rightarrow> string \<Rightarrow> string \<Rightarrow> error + 'doc" where
  "resolveAt v url did = (case getHTTPVDRI v url of Inl err \<Rightarrow> Inl err | Inr r \<Rightarrow> r did)"

fun resolveAll :: "'doc VDRI \<Rightarrow> string \<Rightarrow> Endpoint list \<Rightarrow> error + 'doc list" where
  "resolveAll v did [] = Inr []"
| "resolveAll v did (e # es) =
     (case resolveAt v (URL e) did of
        Inl err \<Rightarrow> Inl err
      | Inr doc \<Rightarrow>
          (case resolveAll v did es of Inl err \<Rightarrow> Inl err | Inr docs \<Rightarrow> Inr (doc # docs)))"

definition reconcile :: "('doc \<Rightarrow> bytes) \<Rightarrow> 'doc list \<Rightarrow> error + 'doc" where
  "reconcile canonicalize docs =
     (case docs of
        [] \<Rightarrow> Inl ''list of endpoints is empty''
      | doc # rest \<Rightarrow>
          if list_all (\<lambda>d. canonicalize d = canonicalize doc) rest then Inr doc
          else Inl ''mismatch between resolved documents'')"

definition resolveViaEndpoints ::
  "'doc VDRI \<Rightarrow> string \<Rightarrow> string \<Rightarrow> error + 'doc" where
  "resolveViaEndpoints v domain did =
     (case endpointService v domain of
        Inl err \<Rightarrow> Inl err
      | Inr endpoints \<Rightarrow>
          if endpoints = [] then Inl ''list of endpoints is empty''
          else (case resolveAll v did endpoints of
                  Inl err \<Rightarrow> Inl err
                | Inr docs \<Rightarrow> reconcile (docCanonicalizer v) docs))"

text \<open>
  Modelled from the spec: steps 1 to 3, and the state machine of a domain
  (unvalidated, validating, validated). \<open>ReadAll\<close> is the resolver after a sequence of
  reads.
\<close>

definition Read :: "'doc VDRI \<Rightarrow> string \<Rightarrow> (error + 'doc) \<times> 'doc VDRI \<times> call list" where
  "Read v did =
     (case resolverURL v of
        Some url \<Rightarrow> (resolveAt v url did, v, [])
      | None \<Rightarrow>
          (case parseDID did of
             None \<Rightarrow> (Inl (''wrong did '' @ did), v, [])
           | Some domain \<Rightarrow>
               if validatedConsortium v domain then
                 (resolveViaEndpoints v domain did, v, [GetEndpointsCall domain])
               else
                 (case consortiumValidator v domain of
                    Inl err \<Rightarrow> (Inl err, v, [ValidateConsortiumCall domain])
                  | Inr _ \<Rightarrow>
                      (resolveViaEndpoints v domain did,
                       v\<lparr>validatedConsortium := (validatedConsortium v)(domain := True)\<rparr>,
                       [ValidateConsortiumCall domain, GetEndpointsCall domain]))))"

fun ReadAll :: "'doc VDRI \<Rightarrow> string list \<Rightarrow> 'doc VDRI" where
  "ReadAll v [] = v"
| "ReadAll v (did # dids) = ReadAll (fst (snd (Read v did))) dids"

text \<open>
  A resolver on sample data: documents are their identifiers and canonicalize to
  themselves, every domain has the endpoints listed in \<open>answers\<close>, and the resolver
  at each of these URLs returns the document listed with it.
\<close>

definition sampleVDRI ::
  "string option \<Rightarrow> string list \<Rightarrow> error + unit \<Rightarrow> (string \<times> string) list \<Rightarrow> string VDRI" where
  "sampleVDRI url validated validation answers =
     \<lparr>resolverURL = url,
      validatedConsortium = (\<lambda>domain. domain \<in> set validated),
      consortiumValidator = (\<lambda>domain. validation),
      endpointService = (\<lambda>domain. Inr (map (\<lambda>a. \<lparr>URL = fst a\<rparr>) answers)),
      getHTTPVDRI = (\<lambda>u. case map_of answers u of
                            None \<Rightarrow> Inl ''get http vdri error''
                          | Some doc \<Rightarrow> Inr (\<lambda>did. Inr doc)),
      docCanonicalizer = (\<lambda>doc. doc)\<rparr>"

section \<open>The document canonicalizer (specification 4.9)\<close>




























section \<open>The verification loop\<close>

text \<open>
  While the quorum is out of reach the loop visits every index, counts every entry that
  verifies and records every other one; once the entries that verify reach the quorum it
  stops with exactly \<open>n\<close>.
\<close>

lemma verifyLoop_no_quorum:
  "c + int (validEntries U V jws (map ((!) ms) ps)) < n \<Longrightarrow>
   verifyLoop U V jws ms n ps c e =
     (c + int (validEntries U V jws (map ((!) ms) ps)), e @ failureList U V jws (map ((!) ms) ps))"
proof (induction ps arbitrary: c e)
  case Nil
  then show ?case by (simp add: validEntries_def failureList_def)
next
  case (Cons p ps)
  show ?case
  proof (cases "U (memberJWK (ms ! p))")
    case None
    then have nv: "\<not> keyVerifies U V jws (ms ! p)" by (simp add: keyVerifies_def)
    with Cons.prems have "c + int (validEntries U V jws (map ((!) ms) ps)) < n"
      by (simp add: validEntries_def)
    from Cons.IH[OF this] None nv show ?thesis
      by (simp add: validEntries_def failureList_def failureMsg_def)
  next
    case (Some key)
    show ?thesis
    proof (cases "V jws key")
      case False
      with Some have nv: "\<not> keyVerifies U V jws (ms ! p)" by (simp add: keyVerifies_def)
      with Cons.prems have "c + int (validEntries U V jws (map ((!) ms) ps)) < n"
        by (simp add: validEntries_def)
      from Cons.IH[OF this] Some False nv show ?thesis
        by (simp add: validEntries_def failureList_def failureMsg_def)
    next
      case True
      with Some have v: "keyVerifies U V jws (ms ! p)" by (simp add: keyVerifies_def)
      with Cons.prems have lt: "(c + 1) + int (validEntries U V jws (map ((!) ms) ps)) < n"
        by (simp add: validEntries_def)
      then have ne: "c + 1 \<noteq> n" by linarith
      from Cons.IH[OF lt] Some True v ne show ?thesis
        by (simp add: validEntries_def failureList_def)
    qed
  qed
qed

lemma verifyLoop_quorum:
  "c < n \<Longrightarrow> n \<le> c + int (validEntries U V jws (map ((!) ms) ps)) \<Longrightarrow>
   fst (verifyLoop U V jws ms n ps c e) = n"
proof (induction ps arbitrary: c e)
  case Nil
  then show ?case by (simp add: validEntries_def)
next
  case (Cons p ps)
  show ?case
  proof (cases "keyVerifies U V jws (ms ! p)")
    case False
    with Cons.prems have "n \<le> c + int (validEntries U V jws (map ((!) ms) ps))"
      by (simp add: validEntries_def)
    from Cons.IH[OF Cons.prems(1) this] False show ?thesis
      by (auto simp: keyVerifies_def split: option.splits)
  next
    case True
    then obtain key where k: "U (memberJWK (ms ! p)) = Some key" "V jws key"
      by (auto simp: keyVerifies_def split: option.splits)
    show ?thesis
    proof (cases "c + 1 = n")
      case True
      with k show ?thesis by simp
    next
      case False
      with Cons.prems(1) have lt: "c + 1 < n" by linarith
      from Cons.prems(2) True have "n \<le> (c + 1) + int (validEntries U V jws (map ((!) ms) ps))"
        by (simp add: validEntries_def)
      from Cons.IH[OF lt this] k False show ?thesis by simp
    qed
  qed
qed

lemma perm_members:
  assumes "mset perm = mset [0..<length ms]"
  shows "mset (map ((!) ms) perm) = mset ms"
proof -
  have "mset (map ((!) ms) perm) = image_mset ((!) ms) (mset perm)" by simp
  also have "\<dots> = image_mset ((!) ms) (mset [0..<length ms])" using assms by simp
  also have "\<dots> = mset (map ((!) ms) [0..<length ms])" by simp
  also have "\<dots> = mset ms" by (simp add: map_nth)
  finally show ?thesis .
qed

lemma validEntries_perm:
  assumes "mset perm = mset [0..<length ms]"
  shows "validEntries U V jws (map ((!) ms) perm) = validEntries U V jws ms"
proof -
  have "mset (filter (keyVerifies U V jws) (map ((!) ms) perm)) = mset (filter (keyVerifies U V jws) ms)"
    using perm_members[OF assms] by (metis mset_filter)
  then show ?thesis unfolding validEntries_def by (metis size_mset)
qed

lemma GetConsortium_success_iff:
  assumes fetch: "GetConsortiumFunc (config cs) url domain = Inr cfd"
      and cfg: "ConsortiumFileData.Config cfd = Some c"
      and nonneg: "0 \<le> NumQueries (Policy c)"
      and perm: "mset perm = mset [0..<length (Members c)]"
  shows "GetConsortium U V perm cs url domain =
           (if int (validEntries U V (ConsortiumFileData.JWS cfd) (Members c))
                 < effectiveN (NumQueries (Policy c)) (length (Members c))
            then Inl (''insufficient stakeholder endorsement of consortium config file. errors are: [''
                       @ failureList U V (ConsortiumFileData.JWS cfd) (map ((!) (Members c)) perm) @ '']'')
            else Inr cfd)"
proof -
  let ?ms = "Members c" and ?jws = "ConsortiumFileData.JWS cfd"
  let ?n = "effectiveN (NumQueries (Policy c)) (length ?ms)"
  let ?v = "int (validEntries U V ?jws (map ((!) ?ms) perm))"
  have n_code: "(if NumQueries (Policy c) = 0 \<or> NumQueries (Policy c) > int (length ?ms)
                 then int (length ?ms) else NumQueries (Policy c)) = ?n"
    using nonneg by (auto simp: effectiveN_def)
  have veq: "validEntries U V ?jws (map ((!) ?ms) perm) = validEntries U V ?jws ?ms"
    by (rule validEntries_perm[OF perm])
  have unfold: "GetConsortium U V perm cs url domain =
      (case verifyLoop U V ?jws ?ms ?n perm 0 [] of (verifiedCount, verificationErrors) \<Rightarrow>
         if verifiedCount < ?n then
           Inl (''insufficient stakeholder endorsement of consortium config file. errors are: [''
                 @ verificationErrors @ '']'')
         else Inr cfd)"
    unfolding GetConsortium_def using fetch cfg n_code by (simp add: Let_def)
  show ?thesis
  proof (cases "?v < ?n")
    case True
    then have "verifyLoop U V ?jws ?ms ?n perm 0 [] = (?v, failureList U V ?jws (map ((!) ?ms) perm))"
      using verifyLoop_no_quorum[of 0 U V ?jws ?ms perm ?n "[]"] by simp
    with True veq show ?thesis unfolding unfold by simp
  next
    case False
    have n0: "0 \<le> ?n" using nonneg by (simp add: effectiveN_def)
    show ?thesis
    proof (cases "?n = 0")
      case True
      with nonneg have "length ?ms = 0" by (auto simp: effectiveN_def split: if_splits)
      with perm have "perm = []" by simp
      with True False veq show ?thesis unfolding unfold by simp
    next
      case nz: False
      with n0 have pos: "0 < ?n" by linarith
      from False have "?n \<le> 0 + ?v" by simp
      from verifyLoop_quorum[OF pos this] have "fst (verifyLoop U V ?jws ?ms ?n perm 0 []) = ?n" .
      with False veq show ?thesis unfolding unfold by (simp add: case_prod_beta)
    qed
  qed
qed

lemma sublist_in_context:
  assumes "sublist xs ys"
  shows "sublist xs (ps @ ys @ ss)"
proof -
  from assms obtain as bs where "ys = as @ xs @ bs" by (auto simp: sublist_def)
  then have "ps @ ys @ ss = (ps @ as) @ xs @ (bs @ ss)" by simp
  then show ?thesis unfolding sublist_def by blast
qed

lemma failureMsg_in_failureList:
  assumes "m \<in> set ms" and "\<not> keyVerifies U V jws m"
  shows "sublist (failureMsg U m) (failureList U V jws ms)"
proof -
  from assms(1) obtain as bs where ms: "ms = as @ m # bs" by (auto dest: split_list)
  have "failureList U V jws ms =
          failureList U V jws as @ failureMsg U m @ failureList U V jws bs"
    using assms(2) by (simp add: ms failureList_def)
  then show ?thesis by (metis sublist_appendI)
qed

lemma Domain_in_failureMsg:
  "sublist (StakeholderListElement.Domain m) (failureMsg U m)"
proof (cases "U (memberJWK m)")
  case None
  then have "failureMsg U m = ''bad key for stakeholder: '' @ StakeholderListElement.Domain m @ '', ''"
    by (simp add: failureMsg_def)
  then show ?thesis by (metis sublist_appendI)
next
  case (Some key)
  then have "failureMsg U m =
      ''key fails to verify for stakeholder: '' @ StakeholderListElement.Domain m @ '', ''"
    by (simp add: failureMsg_def)
  then show ?thesis by (metis sublist_appendI)
qed

section \<open>Quorum of GetConsortium\<close>

text \<open>
  C1 (as amended). For a consortium file that the wrapped service returns, with a
  non-negative \<^verbatim>\<open>NumQueries\<close>, \<open>GetConsortium\<close> succeeds if and only if at least
  \<open>effectiveN\<close> member entries carry a key that parses and verifies the envelope; every
  entry counts, whether or not another entry carries the same key. Otherwise it returns
  an error. With \<^verbatim>\<open>NumQueries = 0\<close> and no members it succeeds. The result does not
  depend on the permutation.
\<close>

theorem GetConsortium_quorum_of_entries:
  assumes "GetConsortiumFunc (config cs) url domain = Inr cfd"
      and "ConsortiumFileData.Config cfd = Some c"
      and "0 \<le> NumQueries (Policy c)"
      and "mset perm = mset [0..<length (Members c)]"
  shows "(GetConsortium U V perm cs url domain = Inr cfd \<longleftrightarrow>
            effectiveN (NumQueries (Policy c)) (length (Members c))
              \<le> int (validEntries U V (ConsortiumFileData.JWS cfd) (Members c)))
       \<and> (isl (GetConsortium U V perm cs url domain) \<longleftrightarrow>
            int (validEntries U V (ConsortiumFileData.JWS cfd) (Members c))
              < effectiveN (NumQueries (Policy c)) (length (Members c)))
       \<and> (NumQueries (Policy c) = 0 \<and> Members c = [] \<longrightarrow>
            GetConsortium U V perm cs url domain = Inr cfd)"
  using GetConsortium_success_iff[OF assms, of U V]
  by (auto simp: effectiveN_def validEntries_def)

theorem GetConsortium_quorum_of_entries_witness:
  "GetConsortium sampleUnmarshalJSON sampleVerifyMulti [1, 0]
     (sampleService (sampleFileData 1
        [sampleMember ''a.example'' ''K1'', sampleMember ''b.example'' ''K2''] [''K2'']))
     ''consortium.url'' ''consortium.url''
   = Inr (sampleFileData 1
        [sampleMember ''a.example'' ''K1'', sampleMember ''b.example'' ''K2''] [''K2''])
   \<and> GetConsortium sampleUnmarshalJSON sampleVerifyMulti []
     (sampleService (sampleFileData 0 [] [''K1'']))
     ''consortium.url'' ''consortium.url''
   = Inr (sampleFileData 0 [] [''K1''])"
proof -
  let ?cfd = "sampleFileData 1
        [sampleMember ''a.example'' ''K1'', sampleMember ''b.example'' ''K2''] [''K2'']"
  let ?c = "\<lparr>Consortium.Domain = ''consortium.url'', Policy = \<lparr>NumQueries = 1\<rparr>,
             Members = [sampleMember ''a.example'' ''K1'', sampleMember ''b.example'' ''K2''],
             Consortium.Previous = ''''\<rparr>"
  have a1: "GetConsortiumFunc (config (sampleService ?cfd)) ''consortium.url'' ''consortium.url'' = Inr ?cfd"
    by (simp add: sampleService_def)
  have a2: "ConsortiumFileData.Config ?cfd = Some ?c" by (simp add: sampleFileData_def)
  have a3: "0 \<le> NumQueries (Policy ?c)" by simp
  have a4: "mset [1, 0] = mset [0..<length (Members ?c)]" by (simp add: upt_rec)
  have v: "validEntries sampleUnmarshalJSON sampleVerifyMulti (ConsortiumFileData.JWS ?cfd) (Members ?c) = 1"
    by (simp add: validEntries_def keyVerifies_def sampleUnmarshalJSON_def sampleVerifyMulti_def
        sampleMember_def memberJWK_def sampleFileData_def)
  have e: "effectiveN (NumQueries (Policy ?c)) (length (Members ?c)) = 1"
    by (simp add: effectiveN_def)
  let ?cfd0 = "sampleFileData 0 [] [''K1'']"
  let ?c0 = "\<lparr>Consortium.Domain = ''consortium.url'', Policy = \<lparr>NumQueries = 0\<rparr>, Members = [],
             Consortium.Previous = ''''\<rparr>"
  have b1: "GetConsortiumFunc (config (sampleService ?cfd0)) ''consortium.url'' ''consortium.url'' = Inr ?cfd0"
    by (simp add: sampleService_def)
  have b2: "ConsortiumFileData.Config ?cfd0 = Some ?c0" by (simp add: sampleFileData_def)
  have b3: "0 \<le> NumQueries (Policy ?c0)" by simp
  have b4: "mset [] = mset [0..<length (Members ?c0)]" by simp
  from GetConsortium_quorum_of_entries[OF a1 a2 a3 a4, of sampleUnmarshalJSON sampleVerifyMulti]
       GetConsortium_quorum_of_entries[OF b1 b2 b3 b4, of sampleUnmarshalJSON sampleVerifyMulti]
       v e
  show ?thesis by simp
qed

text \<open>
  C1 as stated speaks of distinct member keys. Two members carry the same key \<open>K1\<close>,
  which signed the envelope, and \<^verbatim>\<open>NumQueries\<close> is 0: the quorum is 2, one distinct key
  verifies, and \<open>GetConsortium\<close> succeeds.
\<close>

theorem GetConsortium_distinct_keys_counterexample:
  "GetConsortium sampleUnmarshalJSON sampleVerifyMulti [0, 1]
     (sampleService (sampleFileData 0
        [sampleMember ''a.example'' ''K1'', sampleMember ''b.example'' ''K1''] [''K1'']))
     ''consortium.url'' ''consortium.url''
   = Inr (sampleFileData 0
        [sampleMember ''a.example'' ''K1'', sampleMember ''b.example'' ''K1''] [''K1''])
   \<and> distinctValidKeys sampleUnmarshalJSON sampleVerifyMulti [''K1'']
        [sampleMember ''a.example'' ''K1'', sampleMember ''b.example'' ''K1''] = 1
   \<and> effectiveN 0 (length [sampleMember ''a.example'' ''K1'', sampleMember ''b.example'' ''K1'']) = 2"
  by (simp add: GetConsortium_def sampleService_def sampleFileData_def sampleMember_def
      sampleUnmarshalJSON_def sampleVerifyMulti_def memberJWK_def distinctValidKeys_def
      keyVerifies_def effectiveN_def)

text \<open>
  C3 (as amended). \<open>GetConsortium\<close> has no deduplication: members that carry identical
  JWK bytes are counted once per entry, so a consortium whose quorum is reached only by
  counting the same JWK more than once passes verification.
\<close>

theorem GetConsortium_counts_each_entry:
  assumes "GetConsortiumFunc (config cs) url domain = Inr cfd"
      and "ConsortiumFileData.Config cfd = Some c"
      and "0 \<le> NumQueries (Policy c)"
      and "mset perm = mset [0..<length (Members c)]"
      and "int (distinctValidKeys U V (ConsortiumFileData.JWS cfd) (Members c))
             < effectiveN (NumQueries (Policy c)) (length (Members c))"
      and "effectiveN (NumQueries (Policy c)) (length (Members c))
             \<le> int (validEntries U V (ConsortiumFileData.JWS cfd) (Members c))"
  shows "GetConsortium U V perm cs url domain = Inr cfd"
  using GetConsortium_success_iff[OF assms(1-4), of U V] assms(6) by simp

theorem GetConsortium_counts_each_entry_witness:
  "GetConsortium sampleUnmarshalJSON sampleVerifyMulti [1, 2, 0]
     (sampleService (sampleFileData 3
        [sampleMember ''a.example'' ''K1'', sampleMember ''b.example'' ''K1'',
         sampleMember ''c.example'' ''K1''] [''K1'']))
     ''consortium.url'' ''consortium.url''
   = Inr (sampleFileData 3
        [sampleMember ''a.example'' ''K1'', sampleMember ''b.example'' ''K1'',
         sampleMember ''c.example'' ''K1''] [''K1''])"
proof -
  let ?ms = "[sampleMember ''a.example'' ''K1'', sampleMember ''b.example'' ''K1'',
         sampleMember ''c.example'' ''K1'']"
  let ?cfd = "sampleFileData 3 ?ms [''K1'']"
  let ?c = "\<lparr>Consortium.Domain = ''consortium.url'', Policy = \<lparr>NumQueries = 3\<rparr>,
             Members = ?ms, Consortium.Previous = ''''\<rparr>"
  have a1: "GetConsortiumFunc (config (sampleService ?cfd)) ''consortium.url'' ''consortium.url'' = Inr ?cfd"
    by (simp add: sampleService_def)
  have a2: "ConsortiumFileData.Config ?cfd = Some ?c" by (simp add: sampleFileData_def)
  have a3: "0 \<le> NumQueries (Policy ?c)" by simp
  have a4: "mset [1, 2, 0] = mset [0..<length (Members ?c)]" by (simp add: upt_rec)
  have a5: "int (distinctValidKeys sampleUnmarshalJSON sampleVerifyMulti (ConsortiumFileData.JWS ?cfd) (Members ?c))
             < effectiveN (NumQueries (Policy ?c)) (length (Members ?c))"
    by (simp add: distinctValidKeys_def keyVerifies_def sampleUnmarshalJSON_def sampleVerifyMulti_def
        sampleMember_def memberJWK_def sampleFileData_def effectiveN_def)
  have a6: "effectiveN (NumQueries (Policy ?c)) (length (Members ?c))
             \<le> int (validEntries sampleUnmarshalJSON sampleVerifyMulti (ConsortiumFileData.JWS ?cfd) (Members ?c))"
    by (simp add: validEntries_def keyVerifies_def sampleUnmarshalJSON_def sampleVerifyMulti_def
        sampleMember_def memberJWK_def sampleFileData_def effectiveN_def)
  show ?thesis by (rule GetConsortium_counts_each_entry[OF a1 a2 a3 a4 a5 a6])
qed

text \<open>
  C3 as stated fails on three members of which two carry \<open>K1\<close> and the third a key that
  does not parse, with \<^verbatim>\<open>NumQueries = 2\<close>: one distinct key verifies, the quorum is 2,
  and \<open>GetConsortium\<close> returns the file.
\<close>

theorem GetConsortium_duplicate_key_counterexample:
  "GetConsortium sampleUnmarshalJSON sampleVerifyMulti [2, 0, 1]
     (sampleService (sampleFileData 2
        [sampleMember ''a.example'' ''K1'', sampleMember ''b.example'' ''K1'',
         sampleMember ''c.example'' ''not a key''] [''K1'']))
     ''consortium.url'' ''consortium.url''
   = Inr (sampleFileData 2
        [sampleMember ''a.example'' ''K1'', sampleMember ''b.example'' ''K1'',
         sampleMember ''c.example'' ''not a key''] [''K1''])
   \<and> distinctValidKeys sampleUnmarshalJSON sampleVerifyMulti [''K1'']
        [sampleMember ''a.example'' ''K1'', sampleMember ''b.example'' ''K1'',
         sampleMember ''c.example'' ''not a key''] = 1
   \<and> effectiveN 2 (length [sampleMember ''a.example'' ''K1'', sampleMember ''b.example'' ''K1'',
         sampleMember ''c.example'' ''not a key'']) = 2"
  by (simp add: GetConsortium_def sampleService_def sampleFileData_def sampleMember_def
      sampleUnmarshalJSON_def sampleVerifyMulti_def memberJWK_def distinctValidKeys_def
      keyVerifies_def effectiveN_def)

text \<open>
  For a non-negative \<^verbatim>\<open>NumQueries\<close>: when fewer than \<open>effectiveN\<close> member entries
  verify, the loop runs over all the candidates (it returns the count of all entries that
  verify and the messages of all the others, in the order visited), and
  \<open>GetConsortium\<close> returns the error
  \<^verbatim>\<open>insufficient stakeholder endorsement of consortium config file. errors are: [...]\<close>
  whose list holds, for every member whose key does not parse or does not verify, a
  message that names the member's domain.
\<close>


theorem GetConsortium_insufficient_endorsement:
  assumes "GetConsortiumFunc (config cs) url domain = Inr cfd"
      and "ConsortiumFileData.Config cfd = Some c"
      and "0 \<le> NumQueries (Policy c)"
      and "mset perm = mset [0..<length (Members c)]"
      and "int (validEntries U V (ConsortiumFileData.JWS cfd) (Members c))
             < effectiveN (NumQueries (Policy c)) (length (Members c))"
  shows "verifyLoop U V (ConsortiumFileData.JWS cfd) (Members c)
           (effectiveN (NumQueries (Policy c)) (length (Members c))) perm 0 []
         = (int (validEntries U V (ConsortiumFileData.JWS cfd) (Members c)),
            failureList U V (ConsortiumFileData.JWS cfd) (map ((!) (Members c)) perm))
       \<and> (\<exists>err. GetConsortium U V perm cs url domain = Inl err
            \<and> err = ''insufficient stakeholder endorsement of consortium config file. errors are: [''
                      @ failureList U V (ConsortiumFileData.JWS cfd) (map ((!) (Members c)) perm) @ '']''
            \<and> sublist ''insufficient stakeholder endorsement'' err
            \<and> (\<forall>m \<in> set (Members c). \<not> keyVerifies U V (ConsortiumFileData.JWS cfd) m \<longrightarrow>
                  sublist (failureMsg U m) err
                  \<and> sublist (StakeholderListElement.Domain m) (failureMsg U m)))"
proof -
  let ?ms = "Members c" and ?jws = "ConsortiumFileData.JWS cfd"
  let ?errs = "failureList U V ?jws (map ((!) ?ms) perm)"
  let ?err = "''insufficient stakeholder endorsement of consortium config file. errors are: [''
                @ ?errs @ '']''"
  have veq: "validEntries U V ?jws (map ((!) ?ms) perm) = validEntries U V ?jws ?ms"
    by (rule validEntries_perm[OF assms(4)])
  have loop: "verifyLoop U V ?jws ?ms (effectiveN (NumQueries (Policy c)) (length ?ms)) perm 0 []
         = (int (validEntries U V ?jws ?ms), ?errs)"
    using verifyLoop_no_quorum[of 0 U V ?jws ?ms perm "effectiveN (NumQueries (Policy c)) (length ?ms)" "[]"]
      assms(5) veq by simp
  have res: "GetConsortium U V perm cs url domain = Inl ?err"
    using GetConsortium_success_iff[OF assms(1-4), of U V] assms(5) by simp
  have "?err = ''insufficient stakeholder endorsement''
                 @ ('' of consortium config file. errors are: ['' @ ?errs @ '']'')"
    by simp
  then have head: "sublist ''insufficient stakeholder endorsement'' ?err"
    by (metis append_Nil sublist_appendI)
  have "set (map ((!) ?ms) perm) = set ?ms"
    using perm_members[OF assms(4)] by (metis set_mset_mset)
  then have inlist: "\<And>m. m \<in> set ?ms \<Longrightarrow> \<not> keyVerifies U V ?jws m \<Longrightarrow>
      sublist (failureMsg U m) ?errs"
    using failureMsg_in_failureList[of _ "map ((!) ?ms) perm" U V ?jws] by blast
  have "\<And>m. sublist (failureMsg U m) ?errs \<Longrightarrow> sublist (failureMsg U m) ?err"
    by (rule sublist_in_context)
  with inlist have all: "\<forall>m \<in> set ?ms. \<not> keyVerifies U V ?jws m \<longrightarrow>
             sublist (failureMsg U m) ?err
             \<and> sublist (StakeholderListElement.Domain m) (failureMsg U m)"
    using Domain_in_failureMsg by blast
  from loop res head all show ?thesis by blast
qed

theorem GetConsortium_insufficient_endorsement_witness:
  "GetConsortium sampleUnmarshalJSON sampleVerifyMulti [1, 0, 2]
     (sampleService (sampleFileData 2
        [sampleMember ''a.example'' ''not a key'', sampleMember ''b.example'' ''K2'',
         sampleMember ''c.example'' ''K3''] [''K3'']))
     ''consortium.url'' ''consortium.url''
   = Inl (''insufficient stakeholder endorsement of consortium config file. errors are: [''
          @ ''key fails to verify for stakeholder: b.example, ''
          @ ''bad key for stakeholder: a.example, '' @ '']'')"
proof -
  let ?ms = "[sampleMember ''a.example'' ''not a key'', sampleMember ''b.example'' ''K2'',
         sampleMember ''c.example'' ''K3'']"
  let ?cfd = "sampleFileData 2 ?ms [''K3'']"
  let ?c = "\<lparr>Consortium.Domain = ''consortium.url'', Policy = \<lparr>NumQueries = 2\<rparr>,
             Members = ?ms, Consortium.Previous = ''''\<rparr>"
  have a1: "GetConsortiumFunc (config (sampleService ?cfd)) ''consortium.url'' ''consortium.url'' = Inr ?cfd"
    by (simp add: sampleService_def)
  have a2: "ConsortiumFileData.Config ?cfd = Some ?c" by (simp add: sampleFileData_def)
  have a3: "0 \<le> NumQueries (Policy ?c)" by simp
  have a4: "mset [1, 0, 2] = mset [0..<length (Members ?c)]" by (simp add: upt_rec)
  have a5: "int (validEntries sampleUnmarshalJSON sampleVerifyMulti (ConsortiumFileData.JWS ?cfd) (Members ?c))
             < effectiveN (NumQueries (Policy ?c)) (length (Members ?c))"
    by (simp add: validEntries_def keyVerifies_def sampleUnmarshalJSON_def sampleVerifyMulti_def
        sampleMember_def memberJWK_def sampleFileData_def effectiveN_def)
  have f: "failureList sampleUnmarshalJSON sampleVerifyMulti (ConsortiumFileData.JWS ?cfd)
             (map ((!) (Members ?c)) [1, 0, 2])
           = ''key fails to verify for stakeholder: b.example, '' @ ''bad key for stakeholder: a.example, ''"
    by (simp add: failureList_def failureMsg_def keyVerifies_def sampleUnmarshalJSON_def
        sampleVerifyMulti_def sampleMember_def memberJWK_def sampleFileData_def)
  from GetConsortium_insufficient_endorsement[OF a1 a2 a3 a4 a5] f
  show ?thesis by simp
qed

text \<open>
  A negative \<^verbatim>\<open>NumQueries\<close> passes the clamp \<^verbatim>\<open>n == 0 || n > len(consortium.Members)\<close>
  unchanged. The count starts at 0 and only grows, so it never equals \<open>n\<close> and is never
  below it: the loop never breaks and \<open>GetConsortium\<close> returns the file, whatever the
  members' keys do.
\<close>

lemma verifyLoop_quorum_passed:
  "n \<le> c \<Longrightarrow> n \<le> fst (verifyLoop U V jws ms n ps c e)"
proof (induction ps arbitrary: c e)
  case Nil
  then show ?case by simp
next
  case (Cons p ps)
  then have "c + 1 \<noteq> n" "n \<le> c + 1" by simp_all
  with Cons show ?case by (auto split: option.splits)
qed

lemma GetConsortium_negative_NumQueries:
  assumes "GetConsortiumFunc (config cs) url domain = Inr cfd"
      and "ConsortiumFileData.Config cfd = Some c"
      and "NumQueries (Policy c) < 0"
  shows "GetConsortium U V perm cs url domain = Inr cfd"
proof -
  let ?n = "NumQueries (Policy c)"
  have "?n \<le> fst (verifyLoop U V (ConsortiumFileData.JWS cfd) (Members c) ?n perm 0 [])"
    using assms(3) by (intro verifyLoop_quorum_passed) simp
  then show ?thesis
    using assms unfolding GetConsortium_def by (simp add: Let_def case_prod_beta)
qed

text \<open>
  C5. The claim holds for every non-negative \<^verbatim>\<open>NumQueries\<close> (theorem
  \<open>GetConsortium_insufficient_endorsement\<close>) and fails for a negative one: with
  \<^verbatim>\<open>NumQueries = -1\<close> and one member whose key does not parse, no member signature is
  valid and \<open>effectiveN\<close> is 1, yet \<open>GetConsortium\<close> returns the file and no error.
\<close>

theorem GetConsortium_negative_NumQueries_accepted:
  "GetConsortium sampleUnmarshalJSON sampleVerifyMulti [0]
     (sampleService (sampleFileData (- 1) [sampleMember ''a.example'' ''not a key''] [''K1'']))
     ''consortium.url'' ''consortium.url''
   = Inr (sampleFileData (- 1) [sampleMember ''a.example'' ''not a key''] [''K1''])
   \<and> validEntries sampleUnmarshalJSON sampleVerifyMulti [''K1'']
        [sampleMember ''a.example'' ''not a key''] = 0
   \<and> effectiveN (- 1) (length [sampleMember ''a.example'' ''not a key'']) = 1"
  by (simp add: GetConsortium_def sampleService_def sampleFileData_def sampleMember_def
      sampleUnmarshalJSON_def sampleVerifyMulti_def memberJWK_def validEntries_def
      keyVerifies_def effectiveN_def)

text \<open>
  C9. \<open>GetStakeholder\<close> returns what the wrapped service returns for the same
  \<open>url\<close> and \<open>domain\<close>, data or error, unchanged: no key is parsed and no signature is
  verified on this path (the go-jose primitives are not among its arguments).
\<close>

theorem GetStakeholder_pass_through:
  "GetStakeholder cs url domain = GetStakeholderFunc (config cs) url domain"
  by (simp add: GetStakeholder_def)

section \<open>Reading through the resolver\<close>

lemma resolveAll_length:
  "resolveAll v did endpoints = Inr docs \<Longrightarrow> length docs = length endpoints"
  by (induction endpoints arbitrary: docs) (auto split: sum.splits)

lemma reconcile_two_or_more:
  assumes "docs \<noteq> []"
  shows "reconcile canonicalize docs =
           (if \<forall>d \<in> set docs. canonicalize d = canonicalize (hd docs) then Inr (hd docs)
            else Inl ''mismatch between resolved documents'')"
  using assms by (cases docs) (auto simp: reconcile_def list_all_iff)

lemma Read_validated:
  assumes "resolverURL v = None" and "parseDID did = Some domain"
      and "validatedConsortium v domain \<or> \<not> isl (consortiumValidator v domain)"
  shows "fst (Read v did) = resolveViaEndpoints v domain did"
  using assms by (auto simp: Read_def split: sum.splits)

text \<open>
  C2. A read that goes through the endpoint service (no fixed resolver URL, a DID of the
  right shape, a domain that is validated or validates now), finds two or more endpoints
  and gets a document from each of them, canonicalizes every document; it returns the
  first document when all canonical forms are equal and fails with
  \<^verbatim>\<open>mismatch between resolved documents\<close> otherwise.
\<close>

theorem Read_reconciles_endpoints:
  assumes "resolverURL v = None"
      and "parseDID did = Some domain"
      and "validatedConsortium v domain \<or> \<not> isl (consortiumValidator v domain)"
      and "endpointService v domain = Inr endpoints"
      and "2 \<le> length endpoints"
      and "resolveAll v did endpoints = Inr docs"
  shows "length docs = length endpoints
       \<and> fst (Read v did) =
           (if \<forall>d \<in> set docs. docCanonicalizer v d = docCanonicalizer v (hd docs)
            then Inr (hd docs)
            else Inl ''mismatch between resolved documents'')"
proof -
  have len: "length docs = length endpoints" by (rule resolveAll_length[OF assms(6)])
  with assms(5) have ne: "docs \<noteq> []" "endpoints \<noteq> []" by auto
  have "fst (Read v did) = resolveViaEndpoints v domain did"
    by (rule Read_validated[OF assms(1-3)])
  also have "\<dots> = reconcile (docCanonicalizer v) docs"
    using assms(4,6) ne(2) by (simp add: resolveViaEndpoints_def)
  finally show ?thesis using len reconcile_two_or_more[OF ne(1)] by simp
qed

theorem Read_reconciles_endpoints_witness:
  "fst (Read (sampleVDRI None [''testnet''] (Inr ())
          [(''url.1'', ''did:trustbloc:testnet:123''), (''url.2'', ''did:trustbloc:testnet:123'')])
        ''did:trustbloc:testnet:123'') = Inr ''did:trustbloc:testnet:123''
   \<and> fst (Read (sampleVDRI None [''testnet''] (Inr ())
          [(''url.1'', ''test:1''), (''url.2'', ''test:2'')])
        ''did:trustbloc:testnet:123'') = Inl ''mismatch between resolved documents''"
proof -
  let ?did = "''did:trustbloc:testnet:123''"
  let ?v = "sampleVDRI None [''testnet''] (Inr ()) [(''url.1'', ?did), (''url.2'', ?did)]"
  let ?w = "sampleVDRI None [''testnet''] (Inr ()) [(''url.1'', ''test:1''), (''url.2'', ''test:2'')]"
  let ?eps = "[\<lparr>URL = ''url.1''\<rparr>, \<lparr>URL = ''url.2''\<rparr>]"
  have p: "parseDID ?did = Some ''testnet''" by (simp add: parseDID_def)
  have v1: "resolverURL ?v = None" by (simp add: sampleVDRI_def)
  have v3: "validatedConsortium ?v ''testnet'' \<or> \<not> isl (consortiumValidator ?v ''testnet'')"
    by (simp add: sampleVDRI_def)
  have v4: "endpointService ?v ''testnet'' = Inr ?eps" by (simp add: sampleVDRI_def)
  have v6: "resolveAll ?v ?did ?eps = Inr [?did, ?did]"
    by (simp add: sampleVDRI_def resolveAt_def)
  have w1: "resolverURL ?w = None" by (simp add: sampleVDRI_def)
  have w3: "validatedConsortium ?w ''testnet'' \<or> \<not> isl (consortiumValidator ?w ''testnet'')"
    by (simp add: sampleVDRI_def)
  have w4: "endpointService ?w ''testnet'' = Inr ?eps" by (simp add: sampleVDRI_def)
  have w6: "resolveAll ?w ?did ?eps = Inr [''test:1'', ''test:2'']"
    by (simp add: sampleVDRI_def resolveAt_def)
  have l: "2 \<le> length ?eps" by simp
  have c: "docCanonicalizer ?v = (\<lambda>doc. doc)" "docCanonicalizer ?w = (\<lambda>doc. doc)"
    by (simp_all add: sampleVDRI_def)
  from Read_reconciles_endpoints[OF v1 p v3 v4 l v6] Read_reconciles_endpoints[OF w1 p w3 w4 l w6] c
  show ?thesis by simp
qed

lemma Read_keeps_validated:
  "validatedConsortium v domain \<Longrightarrow> validatedConsortium (fst (snd (Read v did))) domain"
  by (auto simp: Read_def split: option.splits sum.splits)

lemma ReadAll_keeps_validated:
  "validatedConsortium v domain \<Longrightarrow> validatedConsortium (ReadAll v dids) domain"
  by (induction dids arbitrary: v) (auto intro: Read_keeps_validated)

text \<open>
  C8. When the domain of the DID is in the validated-consortium cache, \<open>Read\<close> makes no
  call to the validator: its only call is to the endpoint service, and the cache is
  unchanged. A domain in the cache stays there through every sequence of reads. When the
  domain is not in the cache and validation fails, the read returns the validator's error
  and leaves the resolver as it was, so the domain is still out of the cache and the next
  read of the same DID calls the validator again.
\<close>

theorem Read_validated_domain_cached:
  "(resolverURL v = None \<and> parseDID did = Some domain \<and> validatedConsortium v domain \<longrightarrow>
      Read v did = (resolveViaEndpoints v domain did, v, [GetEndpointsCall domain]))
   \<and> (validatedConsortium v domain \<longrightarrow> validatedConsortium (ReadAll v dids) domain)
   \<and> (resolverURL v = None \<and> parseDID did = Some domain \<and> \<not> validatedConsortium v domain
        \<and> consortiumValidator v domain = Inl err \<longrightarrow>
      Read v did = (Inl err, v, [ValidateConsortiumCall domain])
      \<and> \<not> validatedConsortium (fst (snd (Read v did))) domain
      \<and> snd (snd (Read (fst (snd (Read v did))) did)) = [ValidateConsortiumCall domain])"
  by (auto simp: Read_def ReadAll_keeps_validated)

theorem Read_validated_domain_cached_witness:
  "Read (sampleVDRI None [''testnet''] (Inl ''consortium invalid'') [(''url.1'', ''doc'')])
        ''did:trustbloc:testnet:123''
     = (Inr ''doc'',
        sampleVDRI None [''testnet''] (Inl ''consortium invalid'') [(''url.1'', ''doc'')],
        [GetEndpointsCall ''testnet''])
   \<and> validatedConsortium
        (ReadAll (sampleVDRI None [''testnet''] (Inl ''consortium invalid'') [(''url.1'', ''doc'')])
           [''did:trustbloc:testnet:123'', ''did:trustbloc:other:1'', ''did''])
        ''testnet''
   \<and> Read (sampleVDRI None [] (Inl ''consortium invalid'') [(''url.1'', ''doc'')])
        ''did:trustbloc:testnet:123''
     = (Inl ''consortium invalid'',
        sampleVDRI None [] (Inl ''consortium invalid'') [(''url.1'', ''doc'')],
        [ValidateConsortiumCall ''testnet''])"
proof -
  let ?did = "''did:trustbloc:testnet:123''"
  let ?v = "sampleVDRI None [''testnet''] (Inl ''consortium invalid'') [(''url.1'', ''doc'')]"
  let ?w = "sampleVDRI None [] (Inl ''consortium invalid'') [(''url.1'', ''doc'')]"
  have p: "parseDID ?did = Some ''testnet''" by (simp add: parseDID_def)
  have v: "resolverURL ?v = None" "validatedConsortium ?v ''testnet''"
    by (simp_all add: sampleVDRI_def)
  have r: "resolveViaEndpoints ?v ''testnet'' ?did = Inr ''doc''"
    by (simp add: resolveViaEndpoints_def sampleVDRI_def resolveAt_def reconcile_def)
  have w: "resolverURL ?w = None" "\<not> validatedConsortium ?w ''testnet''"
          "consortiumValidator ?w ''testnet'' = Inl ''consortium invalid''"
    by (simp_all add: sampleVDRI_def)
  note a = Read_validated_domain_cached[of ?v ?did "''testnet''"
         "[''did:trustbloc:testnet:123'', ''did:trustbloc:other:1'', ''did'']"]
  note b = Read_validated_domain_cached[of ?w ?did "''testnet''" _ "''consortium invalid''"]
  have c1: "Read ?v ?did = (Inr ''doc'', ?v, [GetEndpointsCall ''testnet''])"
    using a p v r by simp
  have c2: "validatedConsortium
        (ReadAll ?v [''did:trustbloc:testnet:123'', ''did:trustbloc:other:1'', ''did'']) ''testnet''"
    using a v(2) by blast
  have c3: "Read ?w ?did = (Inl ''consortium invalid'', ?w, [ValidateConsortiumCall ''testnet''])"
    using b p w by blast
  from c1 c2 c3 show ?thesis by blast
qed

text \<open>
  C10. With a fixed resolver URL, \<open>Read\<close> hands the DID string as it is to the
  per-endpoint resolver at that URL and returns its answer, with no look at the shape of
  the DID and no call to the validator or the endpoint service. Without a resolver URL, a
  string that is not of the shape \<^verbatim>\<open>did:<method>:<domain>:<suffix>\<close> fails with
  \<^verbatim>\<open>wrong did\<close> followed by the string; \<^verbatim>\<open>did\<close> is such a string.
\<close>

theorem Read_resolver_url_forwards:
  "(resolverURL v = Some url \<longrightarrow> Read v did = (resolveAt v url did, v, []))
   \<and> (resolverURL v = None \<and> parseDID did = None \<longrightarrow>
        Read v did = (Inl (''wrong did '' @ did), v, []))
   \<and> parseDID ''did'' = None"
  by (simp add: Read_def parseDID_def)

theorem Read_resolver_url_forwards_witness:
  "fst (Read (sampleVDRI (Some ''url'') [] (Inl ''consortium invalid'') [(''url'', ''did'')]) ''did'')
     = Inr ''did''
   \<and> fst (Read (sampleVDRI None [] (Inl ''consortium invalid'') [(''url'', ''did'')]) ''did'')
     = Inl ''wrong did did''"
proof -
  let ?v = "sampleVDRI (Some ''url'') [] (Inl ''consortium invalid'') [(''url'', ''did'')]"
  let ?w = "sampleVDRI None [] (Inl ''consortium invalid'') [(''url'', ''did'')]"
  have v: "resolverURL ?v = Some ''url''" "resolveAt ?v ''url'' ''did'' = Inr ''did''"
    by (simp_all add: sampleVDRI_def resolveAt_def)
  have w: "resolverURL ?w = None" by (simp add: sampleVDRI_def)
  from Read_resolver_url_forwards[of ?v "''url''" "''did''"]
       Read_resolver_url_forwards[of ?w _ "''did''"] v w
  show ?thesis by simp
qed

subsection \<open>The cases of TestVDRI_Read\<close>

text \<open>
  The model gives what the test cases of \<^verbatim>\<open>TestVDRI_Read\<close> expect of the resolver
  without a resolver URL: a DID of two parts is rejected, an error of the endpoint service
  and an empty list of endpoints end the read, and so does an error of the per-endpoint
  resolver or of its factory.
\<close>

lemma parseDID_testnet: "parseDID ''did:trustbloc:testnet:123'' = Some ''testnet''"
  by (simp add: parseDID_def)

lemma Read_test_error_parsing_did:
  "resolverURL v = None \<Longrightarrow> fst (Read v ''did:1223'') = Inl ''wrong did did:1223''"
  by (simp add: Read_def parseDID_def)

lemma Read_test_error_from_get_endpoints:
  assumes "resolverURL v = None" and "validatedConsortium v ''testnet''"
  shows "endpointService v ''testnet'' = Inl err \<Longrightarrow>
           fst (Read v ''did:trustbloc:testnet:123'') = Inl err"
    and "endpointService v ''testnet'' = Inr [] \<Longrightarrow>
           fst (Read v ''did:trustbloc:testnet:123'') = Inl ''list of endpoints is empty''"
  using assms by (simp_all add: Read_def parseDID_testnet resolveViaEndpoints_def)

lemma Read_test_error_from_get_http_vdri:
  assumes "resolverURL v = None" and "validatedConsortium v ''testnet''"
      and "endpointService v ''testnet'' = Inr [\<lparr>URL = ''url''\<rparr>]"
  shows "getHTTPVDRI v ''url'' = Inl err \<Longrightarrow>
           fst (Read v ''did:trustbloc:testnet:123'') = Inl err"
    and "getHTTPVDRI v ''url'' = Inr r \<Longrightarrow> r ''did:trustbloc:testnet:123'' = Inl err \<Longrightarrow>
           fst (Read v ''did:trustbloc:testnet:123'') = Inl err"
  using assms
  by (simp_all add: Read_def parseDID_testnet resolveViaEndpoints_def resolveAt_def)

section \<open>Canonical form of a document\<close>




















end
